theory Spec2Isabelle
  imports Complex_Main "HOL-Library.Word"
begin

section \<open>Frames and numpy array operations\<close>

text \<open>
  A frame is a numpy array of shape \<open>(H, W, 3)\<close> and dtype \<open>uint8\<close>: a list of rows, each
  row a list of pixels, each pixel the three samples at channel index 0, 1, 2. OpenCV
  delivers frames in Blue-Green-Red order, so index 0 is blue, 1 is green and 2 is red.

  The sources convert a frame to \<open>float32\<close> before any arithmetic. Samples of a float
  array are modelled as real numbers: the arithmetic of the model is exact, and the
  rounding of \<open>float32\<close>, its overflow to infinity and NaN are not modelled. The one
  infinity the sources can produce from in-range operands (a zero raised to a negative
  power in the gamma step) is modelled explicitly, see \<open>np_power\<close>.
\<close>

type_synonym uint8 = "8 word"
type_synonym 'a pixel = "'a \<times> 'a \<times> 'a"
type_synonym 'a image = "'a pixel list list"

datatype py_error =
    ZeroDivisionError
  | AssertionError string
  | ValueError
  | OSError
  | CalledProcessError
  | SystemExit int

definition blue :: "'a pixel \<Rightarrow> 'a" where
  "blue px = fst px"

definition green :: "'a pixel \<Rightarrow> 'a" where
  "green px = fst (snd px)"

definition red :: "'a pixel \<Rightarrow> 'a" where
  "red px = snd (snd px)"

definition map_pixel :: "('a \<Rightarrow> 'b) \<Rightarrow> 'a pixel \<Rightarrow> 'b pixel" where
  "map_pixel f px = (f (fst px), f (fst (snd px)), f (snd (snd px)))"

definition map_image :: "('a \<Rightarrow> 'b) \<Rightarrow> 'a image \<Rightarrow> 'b image" where
  "map_image f img = map (map (map_pixel f)) img"

text \<open>\<open>img * v\<close> for an array \<open>v\<close> of shape \<open>(3,)\<close>: numpy broadcasts along the last axis.\<close>

definition mul_channels :: "real image \<Rightarrow> real pixel \<Rightarrow> real image" where
  "mul_channels img v =
     map (map (\<lambda>px. (fst px * fst v, fst (snd px) * fst (snd v), snd (snd px) * snd (snd v)))) img"

text \<open>\<open>im.astype('float32')\<close> on a \<open>uint8\<close> array: every value 0..255 is representable.\<close>

definition astype_float32 :: "uint8 image \<Rightarrow> real image" where
  "astype_float32 im = map_image (\<lambda>s. real (unat s)) im"

text \<open>\<open>np.clip(x, lo, hi)\<close> is \<open>minimum(maximum(x, lo), hi)\<close>.\<close>

definition clip :: "real \<Rightarrow> real \<Rightarrow> real \<Rightarrow> real" where
  "clip x lo hi = min (max x lo) hi"

text \<open>
  \<open>astype(np.uint8)\<close> on a float array is the C conversion: the value is truncated
  towards zero and the integer is reduced to 8 bits.
\<close>

definition trunc_real :: "real \<Rightarrow> int" where
  "trunc_real x = (if 0 \<le> x then \<lfloor>x\<rfloor> else \<lceil>x\<rceil>)"

definition to_uint8 :: "real \<Rightarrow> uint8" where
  "to_uint8 x = word_of_int (trunc_real x)"

definition astype_uint8 :: "real image \<Rightarrow> uint8 image" where
  "astype_uint8 img = map_image to_uint8 img"

text \<open>
  A float sample after \<open>np.power\<close>. numpy returns \<open>inf\<close> for a zero base with a negative
  exponent and \<open>nan\<close> for a negative base with a fractional exponent; everywhere else on
  a non-negative base the result is the real power (with \<open>0 ** 0 = 1\<close>).
\<close>

datatype fsample = Finite real | PlusInf | NaN

definition is_integral :: "real \<Rightarrow> bool" where
  "is_integral a = (of_int \<lfloor>a\<rfloor> = a)"

definition np_power :: "real \<Rightarrow> real \<Rightarrow> fsample" where
  "np_power x a =
     (if a = 0 then Finite 1
      else if x = 0 then (if a < 0 then PlusInf else Finite 0)
      else if 0 < x then Finite (x powr a)
      else if is_integral a then Finite ((if even \<lfloor>a\<rfloor> then 1 else - 1) * ((- x) powr a))
      else NaN)"

text \<open>Multiplication by a positive finite constant, \<open>np.clip\<close> and the cast on such a sample.\<close>

definition fmul_pos :: "fsample \<Rightarrow> real \<Rightarrow> fsample" where
  "fmul_pos s c = (case s of Finite v \<Rightarrow> Finite (v * c) | PlusInf \<Rightarrow> PlusInf | NaN \<Rightarrow> NaN)"

definition fclip :: "fsample \<Rightarrow> real \<Rightarrow> real \<Rightarrow> fsample" where
  "fclip s lo hi = (case s of Finite v \<Rightarrow> Finite (clip v lo hi) | PlusInf \<Rightarrow> Finite hi | NaN \<Rightarrow> NaN)"

text \<open>
  The cast of NaN to \<open>uint8\<close> is not defined by C; numpy on the usual platforms stores 0.
  \<open>PlusInf\<close> never reaches the cast in the sources: \<open>np.clip\<close> comes first.
\<close>

definition fto_uint8 :: "fsample \<Rightarrow> uint8" where
  "fto_uint8 s = (case s of Finite v \<Rightarrow> to_uint8 v | PlusInf \<Rightarrow> 0 | NaN \<Rightarrow> 0)"

section \<open>exp/tune\_video.py: the exposure / gain / contrast / gamma transform\<close>

text \<open>Step 1, \<open>img *= float(exposure)\<close>.\<close>

definition step_exposure :: "real image \<Rightarrow> real \<Rightarrow> real image" where
  "step_exposure img exposure = map_image (\<lambda>v. v * exposure) img"

text \<open>
  Step 2: \<open>r_gain, g_gain, b_gain = rgb_ratio\<close>, then channel 0 is multiplied by
  \<open>b_gain\<close>, channel 1 by \<open>g_gain\<close> and channel 2 by \<open>r_gain\<close>.
\<close>

definition step_gains :: "real image \<Rightarrow> real \<times> real \<times> real \<Rightarrow> real image" where
  "step_gains img rgb_ratio =
     (case rgb_ratio of (r_gain, g_gain, b_gain) \<Rightarrow> mul_channels img (b_gain, g_gain, r_gain))"

text \<open>Step 3: \<open>if contrast != 1.0: img = 128.0 + (img - 128.0) * float(contrast)\<close>.\<close>

definition step_contrast :: "real image \<Rightarrow> real \<Rightarrow> real image" where
  "step_contrast img contrast =
     (if contrast \<noteq> 1 then map_image (\<lambda>v. 128 + (v - 128) * contrast) img else img)"

text \<open>
  Step 4, when \<open>gamma != 1.0\<close>: \<open>img = np.clip(img, 0, 255) / 255.0\<close>, then
  \<open>img = np.power(img, 1.0 / float(gamma)) * 255.0\<close>. \<open>1.0 / float(gamma)\<close> is a division
  of Python floats and raises ZeroDivisionError when \<open>gamma\<close> is 0.
\<close>

definition gamma_normalize :: "real image \<Rightarrow> real image" where
  "gamma_normalize img = map_image (\<lambda>v. clip v 0 255 / 255) img"

definition gamma_power :: "real image \<Rightarrow> real \<Rightarrow> fsample image" where
  "gamma_power img e = map_image (\<lambda>v. fmul_pos (np_power v e) 255) img"

definition step_gamma :: "real image \<Rightarrow> real \<Rightarrow> py_error + fsample image" where
  "step_gamma img gamma =
     (if gamma \<noteq> 1 then
        (if gamma = 0 then Inl ZeroDivisionError
         else Inr (gamma_power (gamma_normalize img) (1 / gamma)))
      else Inr (map_image Finite img))"

text \<open>The last line: \<open>np.clip(img, 0, 255).astype(np.uint8)\<close>.\<close>

definition step_clip :: "fsample image \<Rightarrow> fsample image" where
  "step_clip img = map_image (\<lambda>s. fclip s 0 255) img"

definition step_cast :: "fsample image \<Rightarrow> uint8 image" where
  "step_cast img = map_image fto_uint8 img"

definition apply_adjust ::
  "uint8 image \<Rightarrow> real \<Rightarrow> real \<Rightarrow> real \<times> real \<times> real \<Rightarrow> real \<Rightarrow> py_error + uint8 image" where
  "apply_adjust frame_bgr exposure contrast rgb_ratio gamma =
     (let img = astype_float32 frame_bgr;
          img = step_exposure img exposure;
          img = step_gains img rgb_ratio;
          img = step_contrast img contrast
      in case step_gamma img gamma of
           Inl e \<Rightarrow> Inl e
         | Inr img \<Rightarrow> Inr (step_cast (step_clip img)))"

text \<open>
  The float image before the gamma step, the list of all samples of an image, and the
  pixel in the order of the user-facing \<open>(R, G, B)\<close> tuples.
\<close>

definition adjusted :: "uint8 image \<Rightarrow> real \<Rightarrow> real \<Rightarrow> real \<times> real \<times> real \<Rightarrow> real image" where
  "adjusted frame_bgr exposure contrast rgb_ratio =
     step_contrast (step_gains (step_exposure (astype_float32 frame_bgr) exposure) rgb_ratio)
       contrast"

definition samples :: "'a image \<Rightarrow> 'a list" where
  "samples img = concat (map (\<lambda>px. [fst px, fst (snd px), snd (snd px)]) (concat img))"

definition rgb :: "'a pixel \<Rightarrow> 'a \<times> 'a \<times> 'a" where
  "rgb px = (red px, green px, blue px)"

definition rgb_image :: "'a image \<Rightarrow> ('a \<times> 'a \<times> 'a) list list" where
  "rgb_image img = map (map rgb) img"

text \<open>A sample that is a finite value in \<open>[0, 255]\<close>, and the integer part of a sample.\<close>

definition in_byte_range :: "fsample \<Rightarrow> bool" where
  "in_byte_range s =
     (case s of Finite v \<Rightarrow> 0 \<le> v \<and> v \<le> 255 | PlusInf \<Rightarrow> False | NaN \<Rightarrow> False)"


text \<open>
  The frame loop of \<open>main\<close>. \<open>n_frames = min(n_total, args.limit) if args.limit and
  args.limit > 0 else n_total\<close>, where \<open>n_total\<close> is the frame count the source reports
  and \<open>args.limit\<close> the caller's cap (0 = all).
\<close>

definition n_frames :: "int \<Rightarrow> int \<Rightarrow> int" where
  "n_frames n_total limit = (if limit \<noteq> 0 \<and> limit > 0 then min n_total limit else n_total)"

text \<open>
  \<open>for i in range(n_frames): ok, f = cap.read(); if not ok: break; ...;
  proc.stdin.write(adj.tobytes())\<close>. The source is the list of frames its \<open>read\<close> calls
  deliver before the first failing one, the sink the list of frames written so far. An
  exception of the transform leaves the loop.
\<close>

fun frame_loop ::
  "nat \<Rightarrow> uint8 image list \<Rightarrow> (uint8 image \<Rightarrow> py_error + uint8 image) \<Rightarrow>
   uint8 image list \<Rightarrow> py_error + uint8 image list" where
  "frame_loop 0 src adj sink = Inr sink"
| "frame_loop (Suc k) [] adj sink = Inr sink"
| "frame_loop (Suc k) (f # src) adj sink =
     (case adj f of
        Inl e \<Rightarrow> Inl e
      | Inr a \<Rightarrow> frame_loop k src adj (sink @ [a]))"

record adjust_args =
  args_exposure :: real
  args_contrast :: real
  args_r :: real
  args_g :: real
  args_b :: real
  args_gamma :: real
  args_limit :: int

definition main_loop ::
  "adjust_args \<Rightarrow> int \<Rightarrow> uint8 image list \<Rightarrow> py_error + uint8 image list" where
  "main_loop args n_total src =
     frame_loop (nat (n_frames n_total (args_limit args))) src
       (\<lambda>f. apply_adjust f (args_exposure args) (args_contrast args)
              (args_r args, args_g args, args_b args) (args_gamma args))
       []"

section \<open>color.py: gray-world equalisation and the in-place job\<close>

text \<open>
  \<open>arr.mean(axis=(0, 1))\<close> on an array of shape \<open>(H, W, 3)\<close>: the mean over all pixels,
  one value per channel. On a frame without pixels numpy returns NaN (with a warning);
  the model's division by zero gives 0 there, which no result depends on, as the frame has
  no sample to scale.
\<close>

definition mean_axis01 :: "real image \<Rightarrow> real pixel" where
  "mean_axis01 img =
     (let px = concat img; n = real (length px)
      in (sum_list (map fst px) / n,
          sum_list (map (\<lambda>q. fst (snd q)) px) / n,
          sum_list (map (\<lambda>q. snd (snd q)) px) / n))"

text \<open>
  \<open>m = ((imf ** p).mean(axis=(0, 1)) + eps) ** (1.0 / p)\<close>. Both powers have a
  non-negative base and a positive exponent, where numpy's power is the real power.
\<close>

definition channel_gray :: "real \<Rightarrow> real \<Rightarrow> real image \<Rightarrow> real pixel" where
  "channel_gray p eps imf =
     map_pixel (\<lambda>v. (v + eps) powr (1 / p)) (mean_axis01 (map_image (\<lambda>v. v powr p) imf))"

text \<open>\<open>scale = m.mean() / (m + eps)\<close>, with \<open>m\<close> of shape \<open>(3,)\<close>.\<close>

definition channel_scale :: "real \<Rightarrow> real pixel \<Rightarrow> real pixel" where
  "channel_scale eps m =
     (let target = (fst m + fst (snd m) + snd (snd m)) / 3
      in map_pixel (\<lambda>v. target / (v + eps)) m)"

definition color_fix :: "uint8 image \<Rightarrow> uint8 image" where
  "color_fix im =
     (let imf = astype_float32 im;
          p = 6;
          eps = 1 / 1000000;
          m = channel_gray p eps imf;
          scale = channel_scale eps m;
          im_corr = map_image (\<lambda>v. clip v 0 255) (mul_channels imf scale);
          im_out = astype_uint8 (map_image (\<lambda>v. clip v 0 255) im_corr)
      in im_out)"








text \<open>A flat-colour frame: within each channel every pixel has the same value.\<close>

definition flat_frame :: "uint8 image \<Rightarrow> bool" where
  "flat_frame F =
     (case concat F of
        [] \<Rightarrow> True
      | px # rest \<Rightarrow> list_all (\<lambda>q. q = px) rest)"

definition black_frame :: "uint8 image \<Rightarrow> bool" where
  "black_frame F = list_all (\<lambda>q. q = (0, 0, 0)) (concat F)"

text \<open>
  The \<open>scale\<close> that \<open>color_fix\<close> computes for a frame, in the exact arithmetic of the
  model, and a non-empty frame whose pixels all are the gray \<open>(v, v, v)\<close>. In \<open>float32\<close>
  the value of \<open>scale\<close> differs from this one by rounding (for a flat gray frame
  \<open>m + eps\<close> can round to \<open>m\<close>, and the scale to exactly 1), so what is stated of it is a
  tolerance that holds of both.
\<close>

definition frame_scale :: "uint8 image \<Rightarrow> real pixel" where
  "frame_scale im =
     channel_scale (1 / 1000000) (channel_gray 6 (1 / 1000000) (astype_float32 im))"

definition gray_frame :: "uint8 image \<Rightarrow> uint8 \<Rightarrow> bool" where
  "gray_frame F v = (concat F \<noteq> [] \<and> list_all (\<lambda>q. q = (v, v, v)) (concat F))"

subsection \<open>Paths and files\<close>

text \<open>
  A \<open>pathlib.Path\<close> is its parent directory and its final component. \<open>suffix\<close> and
  \<open>with_suffix\<close> follow pathlib (as up to Python 3.12): the suffix of a name starts at its
  last dot, unless that dot is the first or the last character; \<open>with_suffix\<close> raises
  ValueError on an empty name and otherwise replaces the suffix, or appends where there is
  none.
\<close>

record path =
  path_parent :: string
  path_name :: string

fun rfind :: "char \<Rightarrow> string \<Rightarrow> nat option" where
  "rfind c [] = None"
| "rfind c (x # xs) =
     (case rfind c xs of
        Some i \<Rightarrow> Some (Suc i)
      | None \<Rightarrow> if x = c then Some 0 else None)"

definition suffix :: "string \<Rightarrow> string" where
  "suffix nm =
     (case rfind (CHR ''.'') nm of
        None \<Rightarrow> []
      | Some i \<Rightarrow> if 0 < i \<and> Suc i < length nm then drop i nm else [])"

definition with_suffix :: "path \<Rightarrow> string \<Rightarrow> py_error + path" where
  "with_suffix pth sfx =
     (if path_name pth = [] then Inl ValueError
      else if suffix (path_name pth) = [] then Inr (pth\<lparr>path_name := path_name pth @ sfx\<rparr>)
      else Inr (pth\<lparr>path_name := take (length (path_name pth) - length (suffix (path_name pth))) (path_name pth) @ sfx\<rparr>))"

text \<open>
  The file system maps a path to the content of the file there. \<open>Path.replace\<close> is
  \<open>os.replace\<close>: it moves the source over the target and can fail (OSError);
  \<open>unlink(missing_ok=True)\<close> removes the file when there is one.
\<close>

type_synonym 'c files = "path \<Rightarrow> 'c option"

text \<open>
  What the job cannot decide by itself: whether \<open>cv2.VideoWriter\<close> could open its output,
  the encoder's result for a list of frames, whether a rename succeeds, whether ffmpeg is
  on the PATH and what (if anything) its transcoding produces.
\<close>

record 'c env =
  writer_opened :: bool
  encode_mp4v :: "real \<Rightarrow> int \<times> int \<Rightarrow> uint8 image list \<Rightarrow> 'c"
  replace_ok :: "path \<Rightarrow> path \<Rightarrow> bool"
  has_ffmpeg :: bool
  ffmpeg_h264 :: "'c \<Rightarrow> 'c option"

definition replace :: "'c env \<Rightarrow> 'c files \<Rightarrow> path \<Rightarrow> path \<Rightarrow> py_error + 'c files" where
  "replace ev fs src dst =
     (if fs src = None \<or> \<not> replace_ok ev src dst then Inl OSError
      else if src = dst then Inr fs
      else Inr (fs(dst := fs src, src := None)))"

definition unlink :: "'c files \<Rightarrow> path \<Rightarrow> 'c files" where
  "unlink fs pth = fs(pth := None)"

text \<open>
  What \<open>cv2.VideoCapture\<close> gives for a file: whether it opened, the properties it reports
  (as floats) and the frames its \<open>read\<close> calls deliver before the first failing one. A frame
  with \<open>ndim == 2\<close> is grayscale and is converted with \<open>COLOR_GRAY2BGR\<close> (the value copied
  to the three channels).
\<close>

datatype cv_frame = Gray "uint8 list list" | BGR "uint8 image"

record capture =
  isOpened :: bool
  prop_fps :: real
  prop_width :: real
  prop_height :: real
  reads :: "cv_frame list"

definition gray2bgr :: "uint8 list list \<Rightarrow> uint8 image" where
  "gray2bgr gimg = map (map (\<lambda>v. (v, v, v))) gimg"

text \<open>The \<open>while True\<close> loop of \<open>process_one\<close>: the frames written and their count.\<close>

fun read_loop :: "cv_frame list \<Rightarrow> uint8 image list \<Rightarrow> int \<Rightarrow> uint8 image list \<times> int" where
  "read_loop [] written frames = (written, frames)"
| "read_loop (fr # rest) written frames =
     (let frame = (case fr of Gray gimg \<Rightarrow> gray2bgr gimg | BGR img \<Rightarrow> img);
          out = color_fix frame
      in read_loop rest (written @ [out]) (frames + 1))"

text \<open>
  \<open>transcode_h264\<close>: ffmpeg writes \<open>src.with_suffix(".h264.tmp.mp4")\<close>, which then
  replaces \<open>src\<close>. \<open>sp.run(cmd, check=True)\<close> raises CalledProcessError when ffmpeg
  fails. The probe for odd sizes only adds a scale filter to the command and is part of
  \<open>ffmpeg_h264\<close> here.
\<close>

definition transcode_h264 :: "'c env \<Rightarrow> 'c files \<Rightarrow> path \<Rightarrow> (py_error + unit) \<times> 'c files" where
  "transcode_h264 ev fs src_mp4 =
     (case with_suffix src_mp4 ''.h264.tmp.mp4'' of
        Inl e \<Rightarrow> (Inl e, fs)
      | Inr tmp \<Rightarrow>
          (case fs src_mp4 of
             None \<Rightarrow> (Inl CalledProcessError, fs)
           | Some c \<Rightarrow>
               (case ffmpeg_h264 ev c of
                  None \<Rightarrow> (Inl CalledProcessError, fs)
                | Some c' \<Rightarrow>
                    (case replace ev (fs(tmp \<mapsto> c')) tmp src_mp4 of
                       Inl e \<Rightarrow> (Inl e, fs(tmp \<mapsto> c'))
                     | Inr fs' \<Rightarrow> (Inr (), fs')))))"

text \<open>
  The tail of \<open>process_one\<close> after a non-empty run: back the original up, move the
  temporary file over it, roll back when a rename fails (the \<open>finally\<close> clause removes the
  temporary file on every path), transcode when ffmpeg is there, remove the backup.
\<close>

definition overwrite_original ::
  "'c env \<Rightarrow> 'c files \<Rightarrow> path \<Rightarrow> path \<Rightarrow> path \<Rightarrow> (py_error + bool) \<times> 'c files" where
  "overwrite_original ev fs fpath tmp_mp4v bak =
     (case (case replace ev fs fpath bak of
              Inl e \<Rightarrow> Inl (e, fs)
            | Inr fs1 \<Rightarrow>
                (case replace ev fs1 tmp_mp4v fpath of
                   Inl e \<Rightarrow> Inl (e, fs1)
                 | Inr fs2 \<Rightarrow> Inr fs2)) of
        Inl (e, fs1) \<Rightarrow>
          (let fs2 = (if fs1 fpath \<noteq> None then unlink fs1 fpath else fs1)
           in if fs2 bak \<noteq> None then
                (case replace ev fs2 bak fpath of
                   Inl e' \<Rightarrow> (Inl e', unlink fs2 tmp_mp4v)
                 | Inr fs3 \<Rightarrow> (Inr False, unlink fs3 tmp_mp4v))
              else (Inr False, unlink fs2 tmp_mp4v))
      | Inr fs2 \<Rightarrow>
          (let fs3 = unlink fs2 tmp_mp4v;
               (res, fs4) =
                 (if has_ffmpeg ev then
                    (case transcode_h264 ev fs3 fpath of
                       (Inl CalledProcessError, fs') \<Rightarrow> (Inr (), fs')
                     | (Inl e, fs') \<Rightarrow> (Inl e, fs')
                     | (Inr u, fs') \<Rightarrow> (Inr (), fs'))
                  else (Inr (), fs3))
           in case res of
                Inl e \<Rightarrow> (Inl e, fs4)
              | Inr u \<Rightarrow> (Inr True, unlink fs4 bak)))"

definition process_one ::
  "'c env \<Rightarrow> 'c files \<Rightarrow> path \<Rightarrow> capture \<Rightarrow> (py_error + bool) \<times> 'c files" where
  "process_one ev fs fpath cap =
     (if \<not> isOpened cap then (Inr False, fs)
      else
        let fps = (if prop_fps cap = 0 then 30 else prop_fps cap);
            w = trunc_real (prop_width cap);
            h = trunc_real (prop_height cap)
        in if w \<le> 0 \<or> h \<le> 0 then (Inr False, fs)
           else
             (case with_suffix fpath ''.tmp.mp4'' of
                Inl e \<Rightarrow> (Inl e, fs)
              | Inr tmp_mp4v \<Rightarrow>
                  (let (written, frames) = read_loop (reads cap) [] 0;
                       fs1 = (if writer_opened ev
                              then fs(tmp_mp4v \<mapsto> encode_mp4v ev fps (w, h) written)
                              else fs)
                   in if frames = 0 then (Inr False, unlink fs1 tmp_mp4v)
                      else
                        (case with_suffix fpath ''.bak.mp4'' of
                           Inl e \<Rightarrow> (Inl e, fs1)
                         | Inr bak \<Rightarrow> overwrite_original ev fs1 fpath tmp_mp4v bak))))"

section \<open>make\_teaser.py: tile size and the mosaic command\<close>

text \<open>
  \<open>even(x) = int(math.ceil((x or 0)/2.0)*2)\<close>; \<open>x or 0\<close> is 0 for \<open>None\<close> (and for 0).
\<close>

definition even_size :: "int option \<Rightarrow> int" where
  "even_size x = \<lceil>real_of_int (case x of None \<Rightarrow> 0 | Some v \<Rightarrow> v) / 2\<rceil> * 2"

text \<open>
  \<open>get_w_h_dur\<close> returns \<open>(w, h, dur)\<close>, or \<open>(None, None, None)\<close> when the probe fails. The
  loop of \<open>main\<close> over the existing files of both kinds keeps the sizes with \<open>w and h\<close>
  (both non-zero) and the durations with \<open>d\<close> non-zero.
\<close>

type_synonym probe = "(int \<times> int \<times> real) option"

fun collect :: "probe list \<Rightarrow> (int \<times> int) list \<Rightarrow> real list \<Rightarrow> (int \<times> int) list \<times> real list" where
  "collect [] sizes durs = (sizes, durs)"
| "collect (None # ps) sizes durs = collect ps sizes durs"
| "collect (Some (w, h, d) # ps) sizes durs =
     collect ps
       (if w \<noteq> 0 \<and> h \<noteq> 0 then sizes @ [(w, h)] else sizes)
       (if d \<noteq> 0 then durs @ [d] else durs)"

text \<open>Python's \<open>max\<close> over an iterable raises ValueError when it is empty.\<close>

fun py_max :: "int list \<Rightarrow> py_error + int" where
  "py_max [] = Inl ValueError"
| "py_max (x # xs) = Inr (fold max xs x)"

text \<open>
  \<open>if not sizes: sys.exit(1)\<close>, then \<open>W = even(max(w for w,_ in sizes))\<close> and
  \<open>H = even(max(h for _,h in sizes))\<close>.
\<close>

definition main_tile_size :: "probe list \<Rightarrow> py_error + int \<times> int" where
  "main_tile_size probes =
     (let (sizes, durs) = collect probes [] []
      in if sizes = [] then Inl (SystemExit 1)
         else
           (case py_max (map fst sizes) of
              Inl e \<Rightarrow> Inl e
            | Inr mw \<Rightarrow>
                (case py_max (map snd sizes) of
                   Inl e \<Rightarrow> Inl e
                 | Inr mh \<Rightarrow> Inr (even_size (Some mw), even_size (Some mh)))))"

text \<open>
  The widths and the heights of the sources whose probe gave a usable size, in the order
  of the probes.
\<close>

definition probed_widths :: "probe list \<Rightarrow> int list" where
  "probed_widths probes = [w. Some (w, h, d) \<leftarrow> probes, w \<noteq> 0 \<and> h \<noteq> 0]"

definition probed_heights :: "probe list \<Rightarrow> int list" where
  "probed_heights probes = [h. Some (w, h, d) \<leftarrow> probes, w \<noteq> 0 \<and> h \<noteq> 0]"

subsection \<open>Strings\<close>

fun str_nat :: "nat \<Rightarrow> string" where
  "str_nat n =
     (if n < 10 then [''0123456789'' ! n]
      else str_nat (n div 10) @ [''0123456789'' ! (n mod 10)])"

declare str_nat.simps [simp del]

definition str_int :: "int \<Rightarrow> string" where
  "str_int i = (if i < 0 then CHR ''-'' # str_nat (nat (- i)) else str_nat (nat i))"

fun join :: "string \<Rightarrow> string list \<Rightarrow> string" where
  "join sep [] = []"
| "join sep [x] = x"
| "join sep (x # y # ys) = x @ sep @ join sep (y # ys)"

subsection \<open>build\_xstack\<close>

text \<open>
  The configuration constants of the module. \<open>COLS\<close> and \<open>ROWS\<close> (6 and 3 in the file,
  "edit if you like") are parameters of the model.
\<close>

definition FPS_OUT :: nat where
  "FPS_OUT = 30"

definition CRF :: string where
  "CRF = ''20''"

definition PRESET :: string where
  "PRESET = ''veryfast''"

text \<open>The filter chains, the layout and the command line, as the function builds them.\<close>

definition chains :: "nat \<Rightarrow> string list" where
  "chains n =
     map (\<lambda>i. ''['' @ str_nat i @ '':v]setpts=PTS-STARTPTS[v'' @ str_nat i @ '']'') [0..<n]"

definition layout :: "nat \<Rightarrow> nat \<Rightarrow> int \<Rightarrow> int \<Rightarrow> string list" where
  "layout COLS ROWS W H =
     concat (map (\<lambda>rw. map (\<lambda>c. str_int (int c * W) @ ''_'' @ str_int (int rw * H)) [0..<COLS])
               [0..<ROWS])"

definition filter_complex :: "nat \<Rightarrow> nat \<Rightarrow> nat \<Rightarrow> int \<Rightarrow> int \<Rightarrow> string" where
  "filter_complex COLS ROWS n W H =
     join '';'' (chains n) @ '';'' @
     concat (map (\<lambda>i. ''[v'' @ str_nat i @ '']'') [0..<n]) @
     ''xstack=inputs='' @ str_nat n @ '':layout='' @ join ''|'' (layout COLS ROWS W H) @ ''[vout]''"

definition xstack_cmd :: "nat \<Rightarrow> nat \<Rightarrow> string list \<Rightarrow> string \<Rightarrow> int \<Rightarrow> int \<Rightarrow> string list" where
  "xstack_cmd COLS ROWS inputs out_path W H =
     [''ffmpeg'', ''-y'', ''-v'', ''error''] @
     concat (map (\<lambda>p. [''-i'', p]) inputs) @
     [''-filter_complex'', filter_complex COLS ROWS (length inputs) W H,
      ''-map'', ''[vout]'', ''-r'', str_nat FPS_OUT,
      ''-c:v'', ''libx264'', ''-preset'', PRESET, ''-crf'', CRF,
      ''-pix_fmt'', ''yuv420p'', ''-movflags'', ''+faststart'', ''-an'',
      ''-shortest'', out_path]"

text \<open>
  \<open>run(cmd)\<close> is \<open>subprocess.run(cmd, check=True)\<close>: the process is spawned, and a
  non-zero exit raises CalledProcessError. The state is the list of commands spawned so
  far; \<open>exit_ok\<close> tells which commands exit with 0. The \<open>mkdir\<close> of the output directory
  and the \<open>print\<close> of the command, both after the assertion, are left out.
\<close>

definition run ::
  "(string list \<Rightarrow> bool) \<Rightarrow> string list \<Rightarrow> string list list \<Rightarrow> (py_error + unit) \<times> string list list" where
  "run exit_ok cmd spawned =
     (if exit_ok cmd then (Inr (), spawned @ [cmd]) else (Inl CalledProcessError, spawned @ [cmd]))"

definition build_xstack ::
  "(string list \<Rightarrow> bool) \<Rightarrow> nat \<Rightarrow> nat \<Rightarrow> string list \<Rightarrow> string \<Rightarrow> int \<Rightarrow> int \<Rightarrow>
   string list list \<Rightarrow> (py_error + unit) \<times> string list list" where
  "build_xstack exit_ok COLS ROWS inputs out_path W H spawned =
     (let n = length inputs
      in if n \<noteq> COLS * ROWS then
           (Inl (AssertionError
              (''Expected '' @ str_nat (COLS * ROWS) @ '' inputs, got '' @ str_nat n)), spawned)
         else run exit_ok (xstack_cmd COLS ROWS inputs out_path W H) spawned)"

section \<open>Properties of the exposure / gain / contrast / gamma transform\<close>

lemma map_pixel_id: "map_pixel (\<lambda>s. s) px = px"
  by (simp add: map_pixel_def)

lemma map_image_id: "map_image (\<lambda>s. s) img = img"
  by (simp add: map_image_def map_pixel_id map_idI)

lemma map_pixel_comp: "map_pixel f (map_pixel h px) = map_pixel (\<lambda>s. f (h s)) px"
  by (simp add: map_pixel_def)

lemma map_image_comp: "map_image f (map_image h img) = map_image (\<lambda>s. f (h s)) img"
  by (simp add: map_image_def map_pixel_comp comp_def)

lemma samples_map_image: "samples (map_image f img) = map f (samples img)"
  by (simp add: samples_def map_image_def map_pixel_def map_concat comp_def)


lemma mul_channels_one: "mul_channels img (1, 1, 1) = img"
  by (simp add: mul_channels_def map_idI)

lemma unat_uint8_le: "unat (s :: uint8) \<le> 255"
proof -
  have "unat s < 2 ^ LENGTH(8)"
    by (rule unsigned_less)
  then show ?thesis by simp
qed

lemma to_uint8_clip_nat: "n \<le> 255 \<Longrightarrow> to_uint8 (clip (real n) 0 255) = word_of_nat n"
  by (simp add: to_uint8_def clip_def trunc_real_def)

lemma to_uint8_of_sample: "to_uint8 (clip (real (unat (s :: uint8))) 0 255) = s"
proof -
  have "to_uint8 (clip (real (unat s)) 0 255) = word_of_nat (unat s)"
    by (rule to_uint8_clip_nat [OF unat_uint8_le])
  then show ?thesis by simp
qed

lemma cast_clip_roundtrip: "step_cast (step_clip (map_image Finite (astype_float32 F))) = F"
proof -
  have "step_cast (step_clip (map_image Finite (astype_float32 F))) =
        map_image (\<lambda>s. to_uint8 (clip (real (unat s)) 0 255)) F"
    by (simp add: step_cast_def step_clip_def astype_float32_def map_image_comp fclip_def
        fto_uint8_def)
  also have "\<dots> = F"
    by (simp only: to_uint8_of_sample map_image_id)
  finally show ?thesis .
qed

lemma neutral_steps:
  "step_gamma (adjusted F 1 1 (1, 1, 1)) 1 = Inr (map_image Finite (astype_float32 F))"
  by (simp add: adjusted_def step_exposure_def step_gains_def step_contrast_def step_gamma_def
      mul_channels_one map_image_id)

text \<open>
  C3. With exposure, contrast and gamma 1 and gains (1, 1, 1) the transform returns
  every 8-bit 3-channel frame unchanged, sample for sample.
\<close>

theorem apply_adjust_identity: "apply_adjust F 1 1 (1, 1, 1) 1 = Inr F"
proof -
  have "apply_adjust F 1 1 (1, 1, 1) 1 =
        (case step_gamma (adjusted F 1 1 (1, 1, 1)) 1 of
           Inl e \<Rightarrow> Inl e
         | Inr img \<Rightarrow> Inr (step_cast (step_clip img)))"
    by (simp add: apply_adjust_def adjusted_def)
  also have "\<dots> = Inr (step_cast (step_clip (map_image Finite (astype_float32 F))))"
    by (simp only: neutral_steps sum.case)
  also have "\<dots> = Inr F"
    by (simp only: cast_clip_roundtrip)
  finally show ?thesis .
qed

theorem apply_adjust_identity_witness:
  "apply_adjust [[(0, 128, 255), (17, 3, 200)]] 1 1 (1, 1, 1) 1 = Inr [[(0, 128, 255), (17, 3, 200)]]"
  by (rule apply_adjust_identity)

subsection \<open>The mid-gray scenario\<close>

lemma gray_float: "astype_float32 [[(128, 128, 128)]] = [[(128, 128, 128)]]"
  by (simp add: astype_float32_def map_image_def map_pixel_def)

lemma gray_exposure: "step_exposure [[(128, 128, 128)]] 1.2 = [[(153.6, 153.6, 153.6)]]"
  by (simp add: step_exposure_def map_image_def map_pixel_def)

lemma gray_gains:
  "step_gains [[(153.6, 153.6, 153.6)]] (1, 1, 1.3) = [[(199.68, 153.6, 153.6)]]"
  by (simp add: step_gains_def mul_channels_def)

lemma gray_contrast:
  "step_contrast [[(199.68, 153.6, 153.6)]] 1.1 = [[(206.848, 156.16, 156.16)]]"
  by (simp add: step_contrast_def map_image_def map_pixel_def)

lemma gray_adjusted: "adjusted [[(128, 128, 128)]] 1.2 1.1 (1, 1, 1.3) = [[(206.848, 156.16, 156.16)]]"
  by (simp only: adjusted_def gray_float gray_exposure gray_gains gray_contrast)

lemma gray_gamma_off:
  "step_gamma [[(206.848, 156.16, 156.16)]] 1 =
     Inr [[(Finite 206.848, Finite 156.16, Finite 156.16)]]"
  by (simp add: step_gamma_def map_image_def map_pixel_def)

lemma gray_output:
  "step_cast (step_clip [[(Finite 206.848, Finite 156.16, Finite 156.16)]]) = [[(206, 156, 156)]]"
  by (simp add: step_cast_def step_clip_def map_image_def map_pixel_def fclip_def fto_uint8_def
      to_uint8_def trunc_real_def clip_def)

lemma gray_apply_adjust:
  "apply_adjust [[(128, 128, 128)]] 1.2 1.1 (1, 1, 1.3) 1 = Inr [[(206, 156, 156)]]"
proof -
  have "apply_adjust [[(128, 128, 128)]] 1.2 1.1 (1, 1, 1.3) 1 =
        (case step_gamma (adjusted [[(128, 128, 128)]] 1.2 1.1 (1, 1, 1.3)) 1 of
           Inl e \<Rightarrow> Inl e
         | Inr img \<Rightarrow> Inr (step_cast (step_clip img)))"
    by (simp add: apply_adjust_def adjusted_def)
  then show ?thesis
    by (simp only: gray_adjusted gray_gamma_off gray_output sum.case)
qed

text \<open>
  C2, as stated, fails. Its tuples are in (R, G, B) order. After the contrast step the
  blue sample is \<open>128 + (199.68 - 128) * 1.1 = 206.848\<close>, not 220.544, and the output
  pixel is not (156, 156, 220), neither in (R, G, B) order nor in the order of the buffer.
\<close>

theorem apply_adjust_scenario_counterexample:
  "rgb_image (adjusted [[(128, 128, 128)]] 1.2 1.1 (1, 1, 1.3)) \<noteq> [[(156.16, 156.16, 220.544)]]
   \<and> map_sum id rgb_image (apply_adjust [[(128, 128, 128)]] 1.2 1.1 (1, 1, 1.3) 1)
       \<noteq> Inr [[(156, 156, 220)]]
   \<and> apply_adjust [[(128, 128, 128)]] 1.2 1.1 (1, 1, 1.3) 1 \<noteq> Inr [[(156, 156, 220)]]"
proof -
  have "rgb_image (adjusted [[(128, 128, 128)]] 1.2 1.1 (1, 1, 1.3))
      = [[(156.16, 156.16, 206.848 :: real)]]"
    unfolding gray_adjusted rgb_image_def rgb_def red_def green_def blue_def by simp
  then have c: "rgb_image (adjusted [[(128, 128, 128)]] 1.2 1.1 (1, 1, 1.3))
      \<noteq> [[(156.16, 156.16, 220.544)]]"
    by simp
  have o: "map_sum id rgb_image (apply_adjust [[(128, 128, 128)]] 1.2 1.1 (1, 1, 1.3) 1)
      \<noteq> Inr [[(156, 156, 220)]]"
    unfolding gray_apply_adjust rgb_image_def rgb_def red_def green_def blue_def by simp
  have b: "apply_adjust [[(128, 128, 128)]] 1.2 1.1 (1, 1, 1.3) 1 \<noteq> Inr [[(156, 156, 220)]]"
    unfolding gray_apply_adjust by simp
  from c o b show ?thesis
    by (intro conjI)
qed

text \<open>
  C2, amended. With exposure 1.2, contrast 1.1, gains (R, G, B) = (1, 1, 1.3) and gamma 1,
  the mid-gray pixel (128, 128, 128) is, in (R, G, B) order, (153.6, 153.6, 153.6) after
  the exposure step, (153.6, 153.6, 199.68) after the gains, (156.16, 156.16, 206.848)
  after the contrast step; the gamma step leaves the values as they are, and the output
  pixel is (156, 156, 206).
\<close>

theorem apply_adjust_scenario:
  "rgb_image (step_exposure (astype_float32 [[(128, 128, 128)]]) 1.2)
     = [[(153.6, 153.6, 153.6)]]
   \<and> rgb_image (step_gains (step_exposure (astype_float32 [[(128, 128, 128)]]) 1.2) (1, 1, 1.3))
     = [[(153.6, 153.6, 199.68)]]
   \<and> rgb_image (adjusted [[(128, 128, 128)]] 1.2 1.1 (1, 1, 1.3))
     = [[(156.16, 156.16, 206.848)]]
   \<and> step_gamma (adjusted [[(128, 128, 128)]] 1.2 1.1 (1, 1, 1.3)) 1
     = Inr (map_image Finite (adjusted [[(128, 128, 128)]] 1.2 1.1 (1, 1, 1.3)))
   \<and> map_sum id rgb_image (apply_adjust [[(128, 128, 128)]] 1.2 1.1 (1, 1, 1.3) 1)
     = Inr [[(156, 156, 206)]]"
proof -
  have e: "rgb_image (step_exposure (astype_float32 [[(128, 128, 128)]]) 1.2)
      = [[(153.6, 153.6, 153.6 :: real)]]"
    unfolding gray_float gray_exposure rgb_image_def rgb_def red_def green_def blue_def
    by simp
  have g: "rgb_image (step_gains (step_exposure (astype_float32 [[(128, 128, 128)]]) 1.2)
      (1, 1, 1.3)) = [[(153.6, 153.6, 199.68 :: real)]]"
    unfolding gray_float gray_exposure gray_gains rgb_image_def rgb_def red_def green_def
      blue_def
    by simp
  have c: "rgb_image (adjusted [[(128, 128, 128)]] 1.2 1.1 (1, 1, 1.3))
      = [[(156.16, 156.16, 206.848 :: real)]]"
    unfolding gray_adjusted rgb_image_def rgb_def red_def green_def blue_def by simp
  have s: "step_gamma (adjusted [[(128, 128, 128)]] 1.2 1.1 (1, 1, 1.3)) 1
      = Inr (map_image Finite (adjusted [[(128, 128, 128)]] 1.2 1.1 (1, 1, 1.3)))"
    by (simp add: step_gamma_def)
  have out: "map_sum id rgb_image (apply_adjust [[(128, 128, 128)]] 1.2 1.1 (1, 1, 1.3) 1)
      = Inr [[(156, 156, 206)]]"
    unfolding gray_apply_adjust rgb_image_def rgb_def red_def green_def blue_def by simp
  from e g c s out show ?thesis
    by (intro conjI)
qed

subsection \<open>Totality and range\<close>

lemma clip_bounds: "lo \<le> hi \<Longrightarrow> lo \<le> clip x lo hi \<and> clip x lo hi \<le> hi"
  by (simp add: clip_def)

lemma normalize_range: "0 \<le> clip v 0 255 / 255 \<and> clip v 0 255 / 255 \<le> 1"
  using clip_bounds [of 0 255 v] by simp

lemma power_clipped:
  assumes "0 \<le> x" and "a \<noteq> 0"
  shows "\<exists>v. fclip (fmul_pos (np_power x a) 255) 0 255 = Finite v \<and> 0 \<le> v \<and> v \<le> 255"
proof (cases "x = 0")
  case True
  with assms show ?thesis
    by (simp add: np_power_def fmul_pos_def fclip_def clip_def)
next
  case False
  with assms have "0 < x" by simp
  with assms have "fclip (fmul_pos (np_power x a) 255) 0 255 = Finite (clip (x powr a * 255) 0 255)"
    by (simp add: np_power_def fmul_pos_def fclip_def)
  then show ?thesis
    using clip_bounds [of 0 255 "x powr a * 255"] by simp
qed

lemma cast_exact:
  assumes "0 \<le> v" and "v \<le> 255"
  shows "uint (to_uint8 v) = \<lfloor>v\<rfloor>"
proof -
  from assms have "0 \<le> \<lfloor>v\<rfloor>" "\<lfloor>v\<rfloor> \<le> 255"
    by (simp_all add: floor_le_iff le_floor_iff)
  then have "uint (word_of_int \<lfloor>v\<rfloor> :: uint8) = \<lfloor>v\<rfloor>"
    by (simp add: uint_word_of_int take_bit_int_eq_self)
  with assms show ?thesis
    by (simp add: to_uint8_def trunc_real_def)
qed


lemma clip_finite: "in_byte_range (fclip (Finite v) 0 255)"
  using clip_bounds [of 0 255 v] by (simp add: in_byte_range_def fclip_def)

lemma power_in_range:
  "a \<noteq> 0 \<Longrightarrow> in_byte_range (fclip (fmul_pos (np_power (clip v 0 255 / 255) a) 255) 0 255)"
  using power_clipped [of "clip v 0 255 / 255" a] normalize_range [of v]
  by (auto simp add: in_byte_range_def)

lemma step_gamma_in_range:
  assumes "gamma \<noteq> 0"
  shows "\<exists>img'. step_gamma img gamma = Inr img' \<and> list_all in_byte_range (samples (step_clip img'))"
proof (cases "gamma = 1")
  case True
  then show ?thesis
    by (simp add: step_gamma_def step_clip_def samples_map_image list_all_iff clip_finite)
next
  case False
  with assms have "1 / gamma \<noteq> 0" by simp
  then have "list_all in_byte_range
      (samples (step_clip (gamma_power (gamma_normalize img) (1 / gamma))))"
    by (simp add: step_clip_def gamma_power_def gamma_normalize_def samples_map_image
        list_all_iff power_in_range)
  with False assms show ?thesis
    by (simp add: step_gamma_def)
qed





subsection \<open>The frame loop\<close>

lemma apply_adjust_returns:
  assumes "gamma \<noteq> 0"
  shows "\<exists>out. apply_adjust F e c rgb_ratio gamma = Inr out"
proof -
  obtain img where "step_gamma (adjusted F e c rgb_ratio) gamma = Inr img"
    using step_gamma_in_range [OF assms] by blast
  then show ?thesis
    by (simp add: apply_adjust_def adjusted_def)
qed

lemma frame_loop_prefix:
  "\<forall>f. \<exists>a. adj f = Inr a \<Longrightarrow>
   \<exists>out. frame_loop k src adj sink = Inr (sink @ out)
     \<and> length out = min k (length src)
     \<and> map Inr out = map adj (take k src)"
proof (induction k src adj sink rule: frame_loop.induct)
  case (1 src adj sink)
  show ?case by simp
next
  case (2 k adj sink)
  show ?case by simp
next
  case (3 k f src adj sink)
  from "3.prems" obtain a where a: "adj f = Inr a"
    by blast
  from "3.IH" [OF a "3.prems"] obtain out where
    "frame_loop k src adj (sink @ [a]) = Inr ((sink @ [a]) @ out)"
    "length out = min k (length src)"
    "map Inr out = map adj (take k src)"
    by blast
  with a have "frame_loop (Suc k) (f # src) adj sink = Inr (sink @ (a # out))
      \<and> length (a # out) = min (Suc k) (length (f # src))
      \<and> map Inr (a # out) = map adj (take (Suc k) (f # src))"
    by simp
  then show ?case by blast
qed

text \<open>
  C9. With a caller-supplied limit (a positive \<open>--limit\<close>) and a source that reports
  \<open>n_total\<close> frames, the loop writes the transformed frames of a prefix of the source:
  exactly \<open>min(n_total, limit)\<close> of them when the source delivers that many, and all the
  frames the source delivers when it ends earlier. It returns without an error and adds
  no frame. (A valid configuration has a non-zero gamma; with gamma 0 the transform
  itself raises.)
\<close>

theorem main_loop_frame_count:
  assumes "args_gamma args \<noteq> 0" and "0 < args_limit args"
  shows "\<exists>out. main_loop args n_total src = Inr out
           \<and> length out = min (nat (min n_total (args_limit args))) (length src)
           \<and> map Inr out =
               map (\<lambda>f. apply_adjust f (args_exposure args) (args_contrast args)
                          (args_r args, args_g args, args_b args) (args_gamma args))
                 (take (nat (min n_total (args_limit args))) src)"
proof -
  have n: "n_frames n_total (args_limit args) = min n_total (args_limit args)"
    using assms(2) by (simp add: n_frames_def)
  have "\<forall>f. \<exists>a. apply_adjust f (args_exposure args) (args_contrast args)
      (args_r args, args_g args, args_b args) (args_gamma args) = Inr a"
    using apply_adjust_returns [OF assms(1)] by blast
  from frame_loop_prefix [OF this, of "nat (min n_total (args_limit args))" src "[]"]
  show ?thesis
    by (simp add: main_loop_def n)
qed

theorem main_loop_frame_count_witness:
  "args_gamma \<lparr>args_exposure = 1, args_contrast = 1, args_r = 1, args_g = 1, args_b = 1,
       args_gamma = 1, args_limit = 2\<rparr> \<noteq> 0
   \<and> (0::int) < 2
   \<and> main_loop \<lparr>args_exposure = 1, args_contrast = 1, args_r = 1, args_g = 1, args_b = 1,
        args_gamma = 1, args_limit = 2\<rparr> 5 [[[(1, 2, 3)]], [[(4, 5, 6)]], [[(7, 8, 9)]]]
       = Inr [[[(1, 2, 3)]], [[(4, 5, 6)]]]
   \<and> main_loop \<lparr>args_exposure = 1, args_contrast = 1, args_r = 1, args_g = 1, args_b = 1,
        args_gamma = 1, args_limit = 7\<rparr> 5 [[[(1, 2, 3)]], [[(4, 5, 6)]], [[(7, 8, 9)]]]
       = Inr [[[(1, 2, 3)]], [[(4, 5, 6)]], [[(7, 8, 9)]]]"
proof -
  let ?a = "\<lparr>args_exposure = 1, args_contrast = 1, args_r = 1, args_g = 1, args_b = 1,
       args_gamma = 1, args_limit = 2\<rparr>"
  let ?b = "\<lparr>args_exposure = 1, args_contrast = 1, args_r = 1, args_g = 1, args_b = 1,
       args_gamma = 1, args_limit = 7\<rparr>"
  let ?src = "[[[(1, 2, 3)]], [[(4, 5, 6)]], [[(7, 8, 9 :: uint8)]]]"
  have "args_gamma ?a \<noteq> 0" "0 < args_limit ?a" "args_gamma ?b \<noteq> 0" "0 < args_limit ?b"
    by simp_all
  from main_loop_frame_count [OF this(1,2), of 5 ?src]
    main_loop_frame_count [OF this(3,4), of 5 ?src]
  show ?thesis
    by (auto simp add: apply_adjust_def neutral_steps [unfolded adjusted_def]
        cast_clip_roundtrip numeral_2_eq_2 numeral_3_eq_3)
qed

section \<open>Properties of the gray-world transform\<close>

lemma concat_map_image: "concat (map_image f img) = map (map_pixel f) (concat img)"
  by (simp add: map_image_def map_concat)




lemma clip_idem: "clip (clip y 0 255) 0 255 = clip y 0 255"
  by (simp add: clip_def)




subsection \<open>Flat frames\<close>

lemma color_fix_by_scale:
  "color_fix F =
     map (map (\<lambda>px. (to_uint8 (clip (real (unat (fst px)) * fst (frame_scale F)) 0 255),
                      to_uint8 (clip (real (unat (fst (snd px))) * fst (snd (frame_scale F))) 0 255),
                      to_uint8 (clip (real (unat (snd (snd px))) * snd (snd (frame_scale F))) 0 255))))
       F"
  by (simp add: color_fix_def Let_def frame_scale_def astype_uint8_def map_image_comp clip_idem
      mul_channels_def astype_float32_def map_image_def map_pixel_def comp_def)

lemma to_uint8_zero: "to_uint8 (clip 0 0 255) = 0"
  by (simp add: to_uint8_def clip_def trunc_real_def)

lemma map_rows_id:
  assumes "\<forall>q \<in> set (concat F). f q = q"
  shows "map (map f) F = F"
proof -
  have "\<forall>row \<in> set F. map f row = row"
    using assms by (auto intro: map_idI)
  then show ?thesis
    by (auto intro: map_idI)
qed

lemma color_fix_black:
  assumes "black_frame F"
  shows "color_fix F = F"
proof -
  have black: "\<forall>q \<in> set (concat F). q = (0, 0, 0)"
    using assms unfolding black_frame_def list_all_iff .
  show ?thesis
    unfolding color_fix_by_scale
  proof (rule map_rows_id, rule ballI)
    fix q assume "q \<in> set (concat F)"
    with black have "q = (0, 0, 0)" by blast
    then show "(to_uint8 (clip (real (unat (fst q)) * fst (frame_scale F)) 0 255),
        to_uint8 (clip (real (unat (fst (snd q))) * fst (snd (frame_scale F))) 0 255),
        to_uint8 (clip (real (unat (snd (snd q))) * snd (snd (frame_scale F))) 0 255)) = q"
      by (simp add: to_uint8_zero)
  qed
qed

text \<open>The power mean of a frame whose pixels are all the same.\<close>

lemma mean_axis01_uniform:
  assumes "xs \<noteq> []" and "\<forall>q \<in> set xs. q = (a, b, c)"
  shows "sum_list (map fst xs) / real (length xs) = a"
    and "sum_list (map (\<lambda>q. fst (snd q)) xs) / real (length xs) = b"
    and "sum_list (map (\<lambda>q. snd (snd q)) xs) / real (length xs) = c"
proof -
  have 1: "map fst xs = map (\<lambda>q. a) xs" "map (\<lambda>q. fst (snd q)) xs = map (\<lambda>q. b) xs"
    "map (\<lambda>q. snd (snd q)) xs = map (\<lambda>q. c) xs"
    using assms(2) by (auto intro: map_cong)
  from assms(1) have "real (length xs) \<noteq> 0" by simp
  then show "sum_list (map fst xs) / real (length xs) = a"
    and "sum_list (map (\<lambda>q. fst (snd q)) xs) / real (length xs) = b"
    and "sum_list (map (\<lambda>q. snd (snd q)) xs) / real (length xs) = c"
    unfolding 1 by (simp_all add: sum_list_triv)
qed

lemma channel_gray_uniform:
  assumes "concat F \<noteq> []" and "list_all (\<lambda>q. q = (x, y, z)) (concat F)"
  shows "channel_gray p eps (astype_float32 F) =
     ((real (unat x) powr p + eps) powr (1 / p),
      (real (unat y) powr p + eps) powr (1 / p),
      (real (unat z) powr p + eps) powr (1 / p))"
proof -
  let ?g = "\<lambda>s :: uint8. real (unat s) powr p"
  let ?xs = "map (map_pixel ?g) (concat F)"
  have ne: "?xs \<noteq> []"
    using assms(1) by simp
  have "\<forall>q \<in> set (concat F). q = (x, y, z)"
    using assms(2) unfolding list_all_iff .
  then have u: "\<forall>q \<in> set ?xs. q = (?g x, ?g y, ?g z)"
    unfolding set_map by (intro ballI) (auto simp add: map_pixel_def simp del: set_concat)
  have "mean_axis01 (map_image (\<lambda>v. v powr p) (astype_float32 F)) = (?g x, ?g y, ?g z)"
    unfolding mean_axis01_def astype_float32_def map_image_comp concat_map_image Let_def
    using mean_axis01_uniform [OF ne u] by simp
  then show ?thesis
    by (simp add: channel_gray_def map_pixel_def)
qed

lemma eps_root: "(1 / 1000000 :: real) powr (1 / 6) = 1 / 10"
proof -
  have "(1 / 10 :: real) powr 6 = (1 / 10) ^ 6"
    by (rule powr_numeral) simp
  also have "\<dots> = 1 / 1000000"
    by (simp add: power_divide)
  finally have a: "(1 / 10 :: real) powr 6 = 1 / 1000000" .
  have "(1 / 1000000 :: real) powr (1 / 6) = ((1 / 10) powr 6) powr (1 / 6)"
    by (simp only: a)
  also have "\<dots> = (1 / 10) powr (6 * (1 / 6))"
    by (rule powr_powr)
  also have "\<dots> = 1 / 10"
    by simp
  finally show ?thesis .
qed

lemma gray_level_lower:
  assumes "0 \<le> (t :: real)"
  shows "1 / 10 \<le> (t + 1 / 1000000) powr (1 / 6)"
proof -
  have "(1 / 1000000 :: real) powr (1 / 6) \<le> (t + 1 / 1000000) powr (1 / 6)"
    using assms by (intro powr_mono2) simp_all
  then show ?thesis
    by (simp only: eps_root)
qed

lemma scale_near_one:
  assumes "1 / 10 \<le> (m :: real)"
  shows "1 - 1 / 100000 < m / (m + 1 / 1000000)" and "m / (m + 1 / 1000000) < 1"
proof -
  from assms have pos: "0 < m + 1 / 1000000" by simp
  from assms have "(1 - 1 / 100000) * (m + 1 / 1000000) < m"
    by (simp add: algebra_simps)
  with pos show "1 - 1 / 100000 < m / (m + 1 / 1000000)"
    by (simp add: pos_less_divide_eq)
  from pos show "m / (m + 1 / 1000000) < 1"
    by (simp add: pos_divide_less_eq)
qed

lemma frame_scale_gray:
  assumes "gray_frame F v"
  shows "\<exists>s. frame_scale F = (s, s, s) \<and> 1 - 1 / 100000 < s \<and> s < 1"
proof -
  let ?m = "(real (unat v) powr 6 + 1 / 1000000) powr (1 / 6)"
  from assms have ne: "concat F \<noteq> []" and u: "list_all (\<lambda>q. q = (v, v, v)) (concat F)"
    unfolding gray_frame_def by blast+
  have g: "channel_gray 6 (1 / 1000000) (astype_float32 F) = (?m, ?m, ?m)"
    by (rule channel_gray_uniform [OF ne u])
  have s: "frame_scale F =
      (?m / (?m + 1 / 1000000), ?m / (?m + 1 / 1000000), ?m / (?m + 1 / 1000000))"
    by (simp add: frame_scale_def g channel_scale_def Let_def map_pixel_def)
  have "1 / 10 \<le> ?m"
    by (rule gray_level_lower) simp
  from scale_near_one [OF this] s show ?thesis
    by blast
qed


lemma cast_below:
  assumes "0 \<le> y" and "y < real n" and "n \<le> 255"
  shows "uint (to_uint8 (clip y 0 255)) < int n"
proof -
  from assms have c: "clip y 0 255 = y"
    by (simp add: clip_def)
  from assms have "uint (to_uint8 y) = \<lfloor>y\<rfloor>"
    by (intro cast_exact) simp_all
  moreover from assms(2) have "\<lfloor>y\<rfloor> < int n"
    by (simp add: floor_less_iff)
  ultimately show ?thesis
    by (simp add: c)
qed

lemma gray_level_mono:
  assumes "0 \<le> (a :: real)" and "a < b"
  shows "(a powr 6 + 1 / 1000000) powr (1 / 6) < (b powr 6 + 1 / 1000000) powr (1 / 6)"
proof -
  from assms have "a powr 6 < b powr 6"
    by (intro powr_less_mono2) simp_all
  then show ?thesis
    by (intro powr_less_mono2) simp_all
qed

lemma scaled_below:
  assumes "0 \<le> (s :: real)" and "s < 1" and "0 < c"
  shows "0 \<le> c * s" and "c * s < c"
proof -
  from assms show "0 \<le> c * s" by simp
  from assms(2,3) have "c * s < c * 1"
    by (rule mult_strict_left_mono)
  then show "c * s < c" by simp
qed

lemma colour_pixel_darkened:
  "uint (fst (hd (hd (color_fix [[(200, 100, 50)]])))) < 200"
proof -
  let ?F = "[[(200, 100, 50)]] :: uint8 image"
  let ?e = "1 / 1000000 :: real"
  let ?m0 = "(200 powr 6 + ?e) powr (1 / 6)"
  let ?m1 = "(100 powr 6 + ?e) powr (1 / 6)"
  let ?m2 = "(50 powr 6 + ?e) powr (1 / 6)"
  have "channel_gray 6 ?e (astype_float32 ?F) =
      ((real (unat (200 :: uint8)) powr 6 + ?e) powr (1 / 6),
       (real (unat (100 :: uint8)) powr 6 + ?e) powr (1 / 6),
       (real (unat (50 :: uint8)) powr 6 + ?e) powr (1 / 6))"
    by (rule channel_gray_uniform) simp_all
  then have g: "channel_gray 6 ?e (astype_float32 ?F) = (?m0, ?m1, ?m2)"
    by simp
  have lt: "?m1 < ?m0" "?m2 < ?m0"
    by (rule gray_level_mono; simp)+
  have p2: "1 / 10 \<le> ?m2" and p1: "1 / 10 \<le> ?m1" and p0: "1 / 10 \<le> ?m0"
    by (rule gray_level_lower; simp)+
  let ?s = "(?m0 + ?m1 + ?m2) / 3 / (?m0 + ?e)"
  have s: "fst (frame_scale ?F) = ?s"
    by (simp add: frame_scale_def g channel_scale_def Let_def map_pixel_def)
  from lt p0 have "(?m0 + ?m1 + ?m2) / 3 < ?m0 + ?e"
    by simp
  with p0 have s1: "?s < 1"
    by (simp add: pos_divide_less_eq)
  from p0 p1 p2 have s0: "0 \<le> ?s"
    by simp
  have "0 \<le> real 200 * ?s" and "real 200 * ?s < real 200"
    by (rule scaled_below [OF s0 s1]; simp)+
  then have "uint (to_uint8 (clip (real 200 * ?s) 0 255)) < int 200"
    by (rule cast_below) simp
  moreover have "fst (hd (hd (color_fix ?F))) = to_uint8 (clip (real 200 * fst (frame_scale ?F)) 0 255)"
    unfolding color_fix_by_scale by simp
  ultimately show ?thesis
    by (simp only: s of_nat_numeral)
qed

lemma dark_gray_pixel_blackened: "color_fix [[(1, 1, 1)]] = [[(0, 0, 0)]]"
proof -
  let ?F = "[[(1, 1, 1)]] :: uint8 image"
  have "gray_frame ?F 1"
    by (simp add: gray_frame_def)
  from frame_scale_gray [OF this] obtain s
    where s: "frame_scale ?F = (s, s, s)" and lo: "1 - 1 / 100000 < s" and hi: "s < 1"
    by blast
  from lo hi have "clip s 0 255 = s" and "\<lfloor>s\<rfloor> = 0"
    by (simp_all add: clip_def floor_eq_iff)
  with lo have "to_uint8 (clip s 0 255) = 0"
    by (simp add: to_uint8_def trunc_real_def)
  then show ?thesis
    unfolding color_fix_by_scale s by simp
qed

text \<open>
  C4, as stated, fails. The frame of one pixel (200, 100, 50) is flat, and \<open>color_fix\<close>
  changes it: the scale of its strongest channel is below 1. The flat gray frame of one
  pixel (1, 1, 1) is changed too: its scale is just below 1 and the cast truncates.
\<close>

theorem color_fix_flat_counterexample:
  "flat_frame [[(200, 100, 50)]] \<and> color_fix [[(200, 100, 50)]] \<noteq> [[(200, 100, 50)]]
   \<and> flat_frame [[(1, 1, 1)]] \<and> color_fix [[(1, 1, 1)]] \<noteq> [[(1, 1, 1)]]"
proof -
  have "color_fix [[(200, 100, 50)]] \<noteq> [[(200, 100, 50)]]"
  proof
    assume "color_fix [[(200, 100, 50)]] = [[(200, 100, 50)]]"
    with colour_pixel_darkened show False by simp
  qed
  moreover have "color_fix [[(1, 1, 1)]] \<noteq> [[(1, 1, 1)]]"
    by (simp add: dark_gray_pixel_blackened)
  ultimately show ?thesis
    by (simp add: flat_frame_def)
qed

lemma near_one:
  assumes "1 - 1 / 100000 < (s :: real)" and "s < 1"
  shows "\<bar>s - 1\<bar> \<le> 1 / 50000"
  using assms by simp

text \<open>
  C4, amended. An all-black frame comes out of \<open>color_fix\<close> unchanged. For every non-empty
  flat frame whose three channel values are equal (a flat gray frame, black included) each
  channel's scale factor is approximately 1: it differs from 1 by at most 2e-5, a
  tolerance that epsilon bounds. Nothing is said of the output of a flat gray frame that
  is not black.
\<close>

theorem color_fix_black_and_gray:
  "(black_frame F \<longrightarrow> color_fix F = F)
   \<and> (gray_frame F v \<longrightarrow>
        \<bar>fst (frame_scale F) - 1\<bar> \<le> 1 / 50000
        \<and> \<bar>fst (snd (frame_scale F)) - 1\<bar> \<le> 1 / 50000
        \<and> \<bar>snd (snd (frame_scale F)) - 1\<bar> \<le> 1 / 50000)"
proof (intro conjI impI)
  assume "black_frame F"
  then show "color_fix F = F"
    by (rule color_fix_black)
next
  assume "gray_frame F v"
  from frame_scale_gray [OF this] obtain s
    where s: "frame_scale F = (s, s, s)" and "1 - 1 / 100000 < s" and "s < 1"
    by blast
  then have "\<bar>s - 1\<bar> \<le> 1 / 50000"
    by (intro near_one)
  then show "\<bar>fst (frame_scale F) - 1\<bar> \<le> 1 / 50000"
    and "\<bar>fst (snd (frame_scale F)) - 1\<bar> \<le> 1 / 50000"
    and "\<bar>snd (snd (frame_scale F)) - 1\<bar> \<le> 1 / 50000"
    by (simp_all add: s)
qed

theorem color_fix_black_and_gray_witness:
  "black_frame [[(0, 0, 0), (0, 0, 0)]]
   \<and> color_fix [[(0, 0, 0), (0, 0, 0)]] = [[(0, 0, 0), (0, 0, 0)]]
   \<and> gray_frame [[(128, 128, 128)], [(128, 128, 128)]] 128
   \<and> \<bar>fst (frame_scale [[(128, 128, 128)], [(128, 128, 128)]]) - 1\<bar> \<le> 1 / 50000
   \<and> \<bar>fst (snd (frame_scale [[(128, 128, 128)], [(128, 128, 128)]])) - 1\<bar> \<le> 1 / 50000
   \<and> \<bar>snd (snd (frame_scale [[(128, 128, 128)], [(128, 128, 128)]])) - 1\<bar> \<le> 1 / 50000
   \<and> gray_frame [[(0, 0, 0), (0, 0, 0)]] 0
   \<and> \<bar>fst (frame_scale [[(0, 0, 0), (0, 0, 0)]]) - 1\<bar> \<le> 1 / 50000"
proof -
  have b: "black_frame [[(0, 0, 0), (0, 0, 0)]]"
    by (simp add: black_frame_def)
  have g: "gray_frame [[(128, 128, 128)], [(128, 128, 128)]] 128"
    by (simp add: gray_frame_def)
  have z: "gray_frame [[(0, 0, 0), (0, 0, 0)]] 0"
    by (simp add: gray_frame_def)
  from color_fix_black_and_gray [of "[[(0, 0, 0), (0, 0, 0)]]" 0]
    color_fix_black_and_gray [of "[[(128, 128, 128)], [(128, 128, 128)]]" 128] b g z
  show ?thesis
    by blast
qed

section \<open>Properties of the in-place job\<close>

lemma rfind_Some:
  "rfind c xs = Some i \<Longrightarrow> i < length xs \<and> c \<notin> set (drop (Suc i) xs)"
proof (induction xs arbitrary: i)
  case Nil
  then show ?case by simp
next
  case (Cons x xs)
  show ?case
  proof (cases "rfind c xs")
    case None
    have "c \<notin> set xs"
      using None by (induction xs) (auto split: option.splits if_splits)
    with Cons.prems None show ?thesis
      by (auto split: if_splits)
  next
    case (Some j)
    with Cons.prems have "i = Suc j" by simp
    with Cons.IH [OF Some] show ?thesis by simp
  qed
qed

lemma suffix_single_dot:
  assumes "suffix nm \<noteq> []"
  shows "\<exists>i. i < length nm \<and> suffix nm = drop i nm
           \<and> CHR ''.'' \<notin> set (drop (Suc i) nm)"
proof -
  from assms obtain i where i: "rfind (CHR ''.'') nm = Some i"
    by (auto simp add: suffix_def split: option.splits)
  with assms have "suffix nm = drop i nm"
    by (auto simp add: suffix_def split: if_splits)
  with rfind_Some [OF i] show ?thesis by blast
qed

lemma with_suffix_two_dots:
  assumes "with_suffix pth sfx = Inr q" and "sfx \<noteq> []" and "CHR ''.'' \<in> set (tl sfx)"
  shows "path_name q \<noteq> path_name pth"
proof (cases "suffix (path_name pth) = []")
  case True
  with assms(1) have "path_name q = path_name pth @ sfx"
    by (auto simp add: with_suffix_def split: if_splits)
  with assms(2) show ?thesis by simp
next
  case False
  let ?nm = "path_name pth"
  from suffix_single_dot [OF False] obtain i where
    i: "i < length ?nm" and s: "suffix ?nm = drop i ?nm"
    and d: "CHR ''.'' \<notin> set (drop (Suc i) ?nm)"
    by blast
  from i s have "length ?nm - length (suffix ?nm) = i" by simp
  with assms(1) False have q: "path_name q = take i ?nm @ sfx"
    by (auto simp add: with_suffix_def split: if_splits)
  show ?thesis
  proof
    assume "path_name q = ?nm"
    with q have "take i ?nm @ sfx = take i ?nm @ drop i ?nm"
      by (simp only: append_take_drop_id)
    then have "sfx = drop i ?nm"
      by (simp only: same_append_eq)
    then have "tl sfx = drop (Suc i) ?nm"
      by (simp add: drop_Suc tl_drop)
    with d assms(3) show False by simp
  qed
qed

lemma tmp_path_fresh:
  assumes "with_suffix fpath ''.tmp.mp4'' = Inr tmp"
  shows "tmp \<noteq> fpath"
proof -
  have "path_name tmp \<noteq> path_name fpath"
    using assms by (rule with_suffix_two_dots) simp_all
  then show ?thesis by auto
qed

lemma with_suffix_defined:
  "path_name pth \<noteq> [] \<Longrightarrow> \<exists>q. with_suffix pth sfx = Inr q"
  by (simp add: with_suffix_def)

lemma tmp_path_example:
  "with_suffix \<lparr>path_parent = ''human/clip'', path_name = ''cropped_video.mp4''\<rparr> ''.tmp.mp4''
     = Inr \<lparr>path_parent = ''human/clip'', path_name = ''cropped_video.tmp.mp4''\<rparr>"
  by (simp add: with_suffix_def suffix_def)

text \<open>
  C5. A job whose source delivers no frame (on a path with a final component, as every
  file's has) returns False and leaves the content of the file as it was: the temporary
  path differs from the file's. When the source opened with a positive size, the file
  system after the job is the one before it without the temporary file; when it did not,
  no temporary file was written and the file system is unchanged.
\<close>

theorem process_one_zero_frames:
  assumes "reads cap = []" and "path_name fpath \<noteq> []"
  shows "\<exists>tmp. with_suffix fpath ''.tmp.mp4'' = Inr tmp
           \<and> tmp \<noteq> fpath
           \<and> fst (process_one ev fs fpath cap) = Inr False
           \<and> snd (process_one ev fs fpath cap) fpath = fs fpath
           \<and> snd (process_one ev fs fpath cap) =
               (if isOpened cap \<and> 0 < trunc_real (prop_width cap)
                   \<and> 0 < trunc_real (prop_height cap)
                then fs(tmp := None) else fs)"
proof -
  from with_suffix_defined [OF assms(2)] obtain tmp
    where t: "with_suffix fpath ''.tmp.mp4'' = Inr tmp"
    by blast
  have ne: "tmp \<noteq> fpath"
    using t by (rule tmp_path_fresh)
  have ret: "fst (process_one ev fs fpath cap) = Inr False"
    using assms(1) t by (simp add: process_one_def Let_def)
  have st: "snd (process_one ev fs fpath cap) =
      (if isOpened cap \<and> 0 < trunc_real (prop_width cap) \<and> 0 < trunc_real (prop_height cap)
       then fs(tmp := None) else fs)"
    using assms(1) t by (auto simp add: process_one_def Let_def unlink_def)
  from ne have same: "snd (process_one ev fs fpath cap) fpath = fs fpath"
    unfolding st by simp
  from t ne ret same st show ?thesis
    by blast
qed

theorem process_one_zero_frames_witness:
  "fst (process_one
      \<lparr>writer_opened = True, encode_mp4v = (\<lambda>fps size frames. ''mp4v''),
        replace_ok = (\<lambda>src dst. True), has_ffmpeg = True, ffmpeg_h264 = (\<lambda>c. Some ''h264'')\<rparr>
      (Map.empty(\<lparr>path_parent = ''human/clip'', path_name = ''cropped_video.mp4''\<rparr> \<mapsto> ''original''))
      \<lparr>path_parent = ''human/clip'', path_name = ''cropped_video.mp4''\<rparr>
      \<lparr>isOpened = True, prop_fps = 30, prop_width = 640, prop_height = 360, reads = []\<rparr>)
     = Inr False
   \<and> snd (process_one
      \<lparr>writer_opened = True, encode_mp4v = (\<lambda>fps size frames. ''mp4v''),
        replace_ok = (\<lambda>src dst. True), has_ffmpeg = True, ffmpeg_h264 = (\<lambda>c. Some ''h264'')\<rparr>
      (Map.empty(\<lparr>path_parent = ''human/clip'', path_name = ''cropped_video.mp4''\<rparr> \<mapsto> ''original''))
      \<lparr>path_parent = ''human/clip'', path_name = ''cropped_video.mp4''\<rparr>
      \<lparr>isOpened = True, prop_fps = 30, prop_width = 640, prop_height = 360, reads = []\<rparr>)
     = Map.empty(\<lparr>path_parent = ''human/clip'', path_name = ''cropped_video.mp4''\<rparr> \<mapsto> ''original'')"
proof -
  let ?ev = "\<lparr>writer_opened = True, encode_mp4v = (\<lambda>fps size frames. ''mp4v''),
        replace_ok = (\<lambda>src dst. True), has_ffmpeg = True, ffmpeg_h264 = (\<lambda>c. Some ''h264'')\<rparr>"
  let ?f = "\<lparr>path_parent = ''human/clip'', path_name = ''cropped_video.mp4''\<rparr>"
  let ?cap = "\<lparr>isOpened = True, prop_fps = 30, prop_width = 640, prop_height = 360,
        reads = []\<rparr>"
  have "reads ?cap = []" and "path_name ?f \<noteq> []"
    by simp_all
  from process_one_zero_frames [OF this, of ?ev "Map.empty(?f \<mapsto> ''original'')"]
  obtain tmp where "tmp \<noteq> ?f"
    and "fst (process_one ?ev (Map.empty(?f \<mapsto> ''original'')) ?f ?cap) = Inr False"
    and "snd (process_one ?ev (Map.empty(?f \<mapsto> ''original'')) ?f ?cap)
      = (Map.empty(?f \<mapsto> ''original''))(tmp := None)"
    by (auto simp add: trunc_real_def)
  then show ?thesis
    by (auto simp add: fun_eq_iff)
qed

section \<open>Properties of the mosaic\<close>

lemma collect_widths:
  "map fst (fst (collect ps sizes durs)) = map fst sizes @ probed_widths ps"
  by (induction ps sizes durs rule: collect.induct) (simp_all add: probed_widths_def)

lemma collect_heights:
  "map snd (fst (collect ps sizes durs)) = map snd sizes @ probed_heights ps"
  by (induction ps sizes durs rule: collect.induct) (simp_all add: probed_heights_def)


lemma even_size_Some: "even_size (Some v) = (if even v then v else v + 1)"
proof -
  have "\<lceil>real_of_int v / 2\<rceil> = - (- v div 2)"
    using ceiling_divide_eq_div [of v 2] by simp
  then have "even_size (Some v) = - (- v div 2) * 2"
    by (simp add: even_size_def)
  also have "\<dots> = (if even v then v else v + 1)"
    by presburger
  finally show ?thesis .
qed

lemma py_max_Max: "xs \<noteq> [] \<Longrightarrow> py_max xs = Inr (Max (set xs))"
  by (cases xs) (simp_all add: Max.set_eq_fold [symmetric])

lemma probed_lengths: "length (probed_heights ps) = length (probed_widths ps)"
proof -
  have "length (map snd (fst (collect ps [] []))) = length (map fst (fst (collect ps [] [])))"
    by simp
  then show ?thesis
    by (simp only: collect_widths collect_heights list.map append_Nil)
qed

lemma main_tile_size_run:
  assumes "probed_widths probes \<noteq> []"
  shows "main_tile_size probes =
     Inr (even_size (Some (Max (set (probed_widths probes)))),
          even_size (Some (Max (set (probed_heights probes)))))"
proof -
  obtain sizes durs where c: "collect probes [] [] = (sizes, durs)"
    by (cases "collect probes [] []")
  have w: "map fst sizes = probed_widths probes"
    using collect_widths [of probes "[]" "[]"] c by simp
  have h: "map snd sizes = probed_heights probes"
    using collect_heights [of probes "[]" "[]"] c by simp
  from assms w have ne: "sizes \<noteq> []" by auto
  from assms probed_lengths [of probes] have hne: "probed_heights probes \<noteq> []"
    by auto
  have mw: "py_max (map fst sizes) = Inr (Max (set (probed_widths probes)))"
    unfolding w by (rule py_max_Max [OF assms])
  have mh: "py_max (map snd sizes) = Inr (Max (set (probed_heights probes)))"
    unfolding h by (rule py_max_Max [OF hne])
  show ?thesis
    unfolding main_tile_size_def c using ne by (simp add: mw mh)
qed

text \<open>
  C6. When at least one source has a usable probed size, the cell size is computed (once,
  from all probed sources) as (W, H) with W the smallest even integer not below the
  maximal width and H the smallest even integer not below the maximal height: an even
  maximum is kept, an odd one is raised by 1; 641 and 361 give 642 x 362.
\<close>

theorem main_tile_size_even_max:
  assumes "probed_widths probes \<noteq> []"
  shows "\<exists>W H. main_tile_size probes = Inr (W, H)
           \<and> W = (if even (Max (set (probed_widths probes))) then Max (set (probed_widths probes))
                  else Max (set (probed_widths probes)) + 1)
           \<and> H = (if even (Max (set (probed_heights probes))) then Max (set (probed_heights probes))
                  else Max (set (probed_heights probes)) + 1)
           \<and> even W \<and> even H
           \<and> list_all (\<lambda>w. w \<le> W) (probed_widths probes)
           \<and> list_all (\<lambda>h. h \<le> H) (probed_heights probes)"
proof -
  let ?mw = "Max (set (probed_widths probes))"
  let ?mh = "Max (set (probed_heights probes))"
  let ?W = "even_size (Some ?mw)"
  let ?H = "even_size (Some ?mh)"
  have ew: "even ?W" and eh: "even ?H"
    by (simp_all add: even_size_Some)
  have lw: "?mw \<le> ?W" and lh: "?mh \<le> ?H"
    by (simp_all add: even_size_Some)
  have bw: "list_all (\<lambda>w. w \<le> ?W) (probed_widths probes)"
    unfolding list_all_iff
  proof
    fix w assume "w \<in> set (probed_widths probes)"
    then have "w \<le> ?mw" by simp
    with lw show "w \<le> ?W" by linarith
  qed
  have bh: "list_all (\<lambda>h. h \<le> ?H) (probed_heights probes)"
    unfolding list_all_iff
  proof
    fix h assume "h \<in> set (probed_heights probes)"
    then have "h \<le> ?mh" by simp
    with lh show "h \<le> ?H" by linarith
  qed
  have "main_tile_size probes = Inr (?W, ?H)
      \<and> ?W = (if even ?mw then ?mw else ?mw + 1)
      \<and> ?H = (if even ?mh then ?mh else ?mh + 1)
      \<and> even ?W \<and> even ?H
      \<and> list_all (\<lambda>w. w \<le> ?W) (probed_widths probes)
      \<and> list_all (\<lambda>h. h \<le> ?H) (probed_heights probes)"
    using main_tile_size_run [OF assms] ew eh bw bh even_size_Some [of ?mw] even_size_Some [of ?mh]
    by (intro conjI)
  then show ?thesis by blast
qed

theorem main_tile_size_even_max_witness:
  "probed_widths [Some (641, 361, 10), None, Some (640, 360, 5)] \<noteq> []
   \<and> main_tile_size [Some (641, 361, 10), None, Some (640, 360, 5)] = Inr (642, 362)
   \<and> probed_widths [Some (640, 360, 10), Some (320, 200, 5)] \<noteq> []
   \<and> main_tile_size [Some (640, 360, 10), Some (320, 200, 5)] = Inr (640, 360)"
proof -
  let ?a = "[Some (641, 361, 10), None, Some (640, 360, 5)] :: probe list"
  let ?b = "[Some (640, 360, 10), Some (320, 200, 5)] :: probe list"
  have a: "probed_widths ?a = [641, 640]" and ah: "probed_heights ?a = [361, 360]"
    by (simp_all add: probed_widths_def probed_heights_def)
  have b: "probed_widths ?b = [640, 320]" and bh: "probed_heights ?b = [360, 200]"
    by (simp_all add: probed_widths_def probed_heights_def)
  have na: "probed_widths ?a \<noteq> []" and nb: "probed_widths ?b \<noteq> []"
    by (simp_all add: a b)
  from main_tile_size_even_max [OF na] main_tile_size_even_max [OF nb] na nb
  show ?thesis
    unfolding a ah b bh by auto
qed

lemma length_layout: "length (layout COLS ROWS W H) = COLS * ROWS"
  by (simp add: layout_def length_concat comp_def sum_list_triv)

lemma xstack_cmd_example:
  "xstack_cmd 2 1 [''a.mp4'', ''b.mp4''] ''out.mp4'' 642 362 =
     [''ffmpeg'', ''-y'', ''-v'', ''error'', ''-i'', ''a.mp4'', ''-i'', ''b.mp4'',
      ''-filter_complex'',
      ''[0:v]setpts=PTS-STARTPTS[v0];[1:v]setpts=PTS-STARTPTS[v1];[v0][v1]xstack=inputs=2:layout=0_0|642_0[vout]'',
      ''-map'', ''[vout]'', ''-r'', ''30'',
      ''-c:v'', ''libx264'', ''-preset'', ''veryfast'', ''-crf'', ''20'',
      ''-pix_fmt'', ''yuv420p'', ''-movflags'', ''+faststart'', ''-an'',
      ''-shortest'', ''out.mp4'']"
  by (simp add: xstack_cmd_def filter_complex_def chains_def layout_def str_int_def upt_rec
      str_nat.simps FPS_OUT_def PRESET_def CRF_def)

text \<open>
  C8. For every grid shape, a list of tiles whose length is not COLS * ROWS makes
  \<open>build_xstack\<close> raise AssertionError before anything is spawned; with exactly
  COLS * ROWS tiles it spawns the one composing command, whose layout has one cell per
  tile, and fails only if that command does.
\<close>

theorem build_xstack_tile_count:
  "(length inputs \<noteq> COLS * ROWS \<longrightarrow>
      (\<exists>msg. build_xstack exit_ok COLS ROWS inputs out_path W H spawned
                = (Inl (AssertionError msg), spawned)))
   \<and> (length inputs = COLS * ROWS \<longrightarrow>
      snd (build_xstack exit_ok COLS ROWS inputs out_path W H spawned)
        = spawned @ [xstack_cmd COLS ROWS inputs out_path W H]
      \<and> fst (build_xstack exit_ok COLS ROWS inputs out_path W H spawned)
        = (if exit_ok (xstack_cmd COLS ROWS inputs out_path W H) then Inr ()
           else Inl CalledProcessError)
      \<and> length (layout COLS ROWS W H) = length inputs)"
proof (cases "length inputs = COLS * ROWS")
  case True
  then show ?thesis
    by (simp add: build_xstack_def run_def length_layout)
next
  case False
  then show ?thesis
    by (simp add: build_xstack_def)
qed

theorem build_xstack_tile_count_witness:
  "(\<exists>msg. build_xstack (\<lambda>cmd. True) 2 1 [''a.mp4''] ''out.mp4'' 642 362 []
            = (Inl (AssertionError msg), []))
   \<and> build_xstack (\<lambda>cmd. True) 2 1 [''a.mp4'', ''b.mp4''] ''out.mp4'' 642 362 []
       = (Inr (), [xstack_cmd 2 1 [''a.mp4'', ''b.mp4''] ''out.mp4'' 642 362])"
proof -
  have "length [''a.mp4''] \<noteq> 2 * (1::nat)" and "length [''a.mp4'', ''b.mp4''] = 2 * (1::nat)"
    by simp_all
  with build_xstack_tile_count [of "[''a.mp4'']" 2 1 "\<lambda>cmd. True" "''out.mp4''" 642 362 "[]"]
    build_xstack_tile_count [of "[''a.mp4'', ''b.mp4'']" 2 1 "\<lambda>cmd. True" "''out.mp4''" 642 362 "[]"]
  show ?thesis
    by (simp add: prod_eq_iff)
qed

end
